theory Spec2Isabelle
  imports Complex_Main "HOL-Library.Char_ord" "HOL-Library.List_Lexorder"
begin

section \<open>Python exceptions\<close>

text \<open>
  The exceptions the modelled code can raise.  A function that may raise returns
  \<open>py_error + 'a\<close>, with \<open>Inl\<close> for the exception.  \<open>ReadError\<close> stands for any
  exception raised while a file is opened, decoded or parsed (\<open>OSError\<close>,
  \<open>UnicodeDecodeError\<close>, \<open>csv.Error\<close>); all of them are subclasses of \<open>Exception\<close>.
\<close>

datatype py_error =
    FileNotFoundError string
  | NotADirectoryError
  | IsADirectoryError
  | ZeroDivisionError
  | IndexError
  | KeyError string
  | EOFError
  | ReadError string

section \<open>File names (\<open>extract_label_and_info\<close>)\<close>

text \<open>
  Strings are lists of 8-bit characters.  On ASCII characters the definitions below are
  Python's: \<open>\d\<close> is a decimal digit, \<open>\w\<close> a letter, a digit or the underscore,
  and \<open>str.upper\<close> and \<open>str.lower\<close> change the 26 letters.  Python's classes and
  case mappings also cover characters outside ASCII, which these definitions treat as
  neither digit nor word character and leave unchanged; the statements about file names
  are therefore made for ASCII file names, and say so.
\<close>

definition is_ascii :: "char \<Rightarrow> bool" where
  "is_ascii c = ((of_char c :: nat) < 128)"

definition is_digit :: "char \<Rightarrow> bool" where
  "is_digit c = (c \<in> set ''0123456789'')"

definition is_word_char :: "char \<Rightarrow> bool" where
  "is_word_char c =
     (c \<in> set ''abcdefghijklmnopqrstuvwxyzABCDEFGHIJKLMNOPQRSTUVWXYZ0123456789_'')"

definition upper_char :: "char \<Rightarrow> char" where
  "upper_char c =
     (case map_of (zip ''abcdefghijklmnopqrstuvwxyz'' ''ABCDEFGHIJKLMNOPQRSTUVWXYZ'') c of
        Some u \<Rightarrow> u
      | None \<Rightarrow> c)"

definition lower_char :: "char \<Rightarrow> char" where
  "lower_char c =
     (case map_of (zip ''ABCDEFGHIJKLMNOPQRSTUVWXYZ'' ''abcdefghijklmnopqrstuvwxyz'') c of
        Some l \<Rightarrow> l
      | None \<Rightarrow> c)"

definition upper :: "string \<Rightarrow> string" where
  "upper s = map upper_char s"

definition lower :: "string \<Rightarrow> string" where
  "lower s = map lower_char s"

text \<open>\<open>os.path.basename\<close>: what follows the last slash.\<close>

definition basename :: "string \<Rightarrow> string" where
  "basename p = rev (takeWhile (\<lambda>c. c \<noteq> CHR ''/'') (rev p))"

text \<open>
  The pieces of \<open>re.match(r'(channel\d+)_(\d+T\d+)_(\w+)', base)\<close>.  The match is
  anchored at the start of \<open>base\<close> only.  Every \<open>\d+\<close> is followed by a character that
  is not a digit, so the longest run of digits is the only one that can match, and the final
  \<open>\w+\<close> takes the longest run of word characters; no backtracking changes the groups.
\<close>

fun strip_prefix :: "string \<Rightarrow> string \<Rightarrow> string option" where
  "strip_prefix [] s = Some s"
| "strip_prefix (p # ps) [] = None"
| "strip_prefix (p # ps) (c # cs) = (if p = c then strip_prefix ps cs else None)"

definition match_digits :: "string \<Rightarrow> (string \<times> string) option" where
  "match_digits s =
     (let ds = takeWhile is_digit s
      in if ds = [] then None else Some (ds, dropWhile is_digit s))"

fun expect :: "char \<Rightarrow> string \<Rightarrow> string option" where
  "expect c [] = None"
| "expect c (x # xs) = (if x = c then Some xs else None)"

definition re_match :: "string \<Rightarrow> (string \<times> string \<times> string) option" where
  "re_match base =
     (case strip_prefix ''channel'' base of
        None \<Rightarrow> None
      | Some r0 \<Rightarrow>
     (case match_digits r0 of
        None \<Rightarrow> None
      | Some (ds, r1) \<Rightarrow>
     (case expect (CHR ''_'') r1 of
        None \<Rightarrow> None
      | Some r2 \<Rightarrow>
     (case match_digits r2 of
        None \<Rightarrow> None
      | Some (d1, r3) \<Rightarrow>
     (case expect (CHR ''T'') r3 of
        None \<Rightarrow> None
      | Some r4 \<Rightarrow>
     (case match_digits r4 of
        None \<Rightarrow> None
      | Some (d2, r5) \<Rightarrow>
     (case expect (CHR ''_'') r5 of
        None \<Rightarrow> None
      | Some r6 \<Rightarrow>
          (let w = takeWhile is_word_char r6
           in if w = [] then None
              else Some (''channel'' @ ds, d1 @ ''T'' @ d2, w)))))))))"

text \<open>\<open>extract_label_and_info(filename)\<close> returns (display label, original name, model status).\<close>

definition extract_label_and_info :: "string \<Rightarrow> string \<times> string \<times> string" where
  "extract_label_and_info filename =
     (let base = basename filename
      in case re_match base of
           Some (channel, timestamp, group3) \<Rightarrow>
             (let status = upper group3;
                  display_label = channel @ ''_'' @ status;
                  original_name = channel @ ''_'' @ timestamp;
                  model_status = (if status = ''FOUND'' then ''FOUND'' else ''NOT_FOUND'')
              in (display_label, original_name, model_status))
         | None \<Rightarrow> (base, base, ''UNKNOWN''))"

text \<open>
  The naming grammar in the words of the specification,
  \<open><channel><digits>_<timestamp>_<statusWord>.<ext>\<close>: the status word is followed by a
  dot and the extension.
\<close>

definition parts_ok :: "string \<Rightarrow> string \<Rightarrow> string \<Rightarrow> string \<Rightarrow> bool" where
  "parts_ok ds d1 d2 w =
     (ds \<noteq> [] \<and> list_all is_digit ds \<and> d1 \<noteq> [] \<and> list_all is_digit d1
      \<and> d2 \<noteq> [] \<and> list_all is_digit d2 \<and> w \<noteq> [] \<and> list_all is_word_char w)"

definition matches_grammar :: "string \<Rightarrow> bool" where
  "matches_grammar name =
     (\<exists>ds d1 d2 w ext. parts_ok ds d1 d2 w
        \<and> name = ''channel'' @ ds @ ''_'' @ d1 @ ''T'' @ d2 @ ''_'' @ w @ ''.'' @ ext)"

text \<open>What the code matches: the same shape as a prefix, whatever follows the word run.\<close>

definition matches_prefix :: "string \<Rightarrow> bool" where
  "matches_prefix name =
     (\<exists>ds d1 d2 w rest. parts_ok ds d1 d2 w
        \<and> name = ''channel'' @ ds @ ''_'' @ d1 @ ''T'' @ d2 @ ''_'' @ w @ rest)"

text \<open>Equality of two strings up to the case of their letters.\<close>

definition ci_equal :: "string \<Rightarrow> string \<Rightarrow> bool" where
  "ci_equal a b = (lower a = lower b)"

section \<open>Pointer mapping (\<open>mouse_callback\<close>, \<open>get_clicked_video_index\<close>)\<close>

definition EVENT_LBUTTONDOWN :: int where
  "EVENT_LBUTTONDOWN = 1"

text \<open>
  \<open>mouse_callback(event, x, y, flags, param)\<close> overwrites the global \<open>click_coords\<close>
  on a left-button press, after subtracting the height of the status bar (40) from \<open>y\<close>;
  any other event leaves the buffer as it is.
\<close>

definition mouse_callback :: "int \<Rightarrow> int \<Rightarrow> int \<Rightarrow> (int \<times> int) option \<Rightarrow> (int \<times> int) option" where
  "mouse_callback event x y click_coords =
     (if event = EVENT_LBUTTONDOWN then Some (x, y - 40) else click_coords)"

text \<open>
  \<open>get_clicked_video_index(x, y, cols, rows, frame_width, frame_height, total_videos)\<close>.
  Python's \<open>//\<close> is floor division, as \<open>div\<close> on \<open>int\<close>; it raises on a zero divisor,
  which is written out.
\<close>

definition get_clicked_video_index ::
  "int \<Rightarrow> int \<Rightarrow> int \<Rightarrow> int \<Rightarrow> int \<Rightarrow> int \<Rightarrow> int \<Rightarrow> py_error + int option" where
  "get_clicked_video_index x y cols rows frame_width frame_height total_videos =
     (if y < 0 then Inr None
      else
        let label_height = 30;
            video_height_with_label = frame_height + label_height
        in if frame_width = 0 then Inl ZeroDivisionError
           else let col = x div frame_width
           in if video_height_with_label = 0 then Inl ZeroDivisionError
           else let row = y div video_height_with_label
           in if col \<ge> cols \<or> row \<ge> rows then Inr None
              else let index = row * cols + col
                   in Inr (if index < total_videos then Some index else None))"

section \<open>The classification log (\<open>save_to_csv\<close>, \<open>print_summary\<close>)\<close>

text \<open>
  What is at the path of the log.  A regular file is represented by the sequence of rows
  the \<open>csv\<close> module reads from it or has written to it, each row a list of fields; the
  quoting rules of the module make the rows recoverable from the text.  A blank line is the
  row \<open>[]\<close>.
\<close>

type_synonym csv_row = "string list"

datatype fs_entry = Absent | Directory | RegularFile "csv_row list"

definition fieldnames :: csv_row where
  "fieldnames = [''video_name'', ''model_status'', ''manual_status'']"

text \<open>\<open>os.path.isfile\<close> and \<open>os.path.exists\<close>.\<close>

fun isfile :: "fs_entry \<Rightarrow> bool" where
  "isfile (RegularFile _) = True"
| "isfile _ = False"


text \<open>
  \<open>open(csv_filename, 'a')\<close> followed by the rows written through it: a missing file is
  created, a directory raises.
\<close>

fun open_append :: "fs_entry \<Rightarrow> csv_row list \<Rightarrow> py_error + fs_entry" where
  "open_append Absent new_rows = Inr (RegularFile new_rows)"
| "open_append Directory new_rows = Inl IsADirectoryError"
| "open_append (RegularFile old_rows) new_rows = Inr (RegularFile (old_rows @ new_rows))"

text \<open>
  \<open>save_to_csv(original_name, model_status, manual_status)\<close>: the header is written when
  \<open>os.path.isfile\<close> was false before the file was opened.
\<close>

definition save_to_csv :: "string \<Rightarrow> string \<Rightarrow> string \<Rightarrow> fs_entry \<Rightarrow> py_error + fs_entry" where
  "save_to_csv original_name model_status manual_status csv_file =
     (let file_exists = isfile csv_file;
          header = (if \<not> file_exists then [fieldnames] else []);
          data_row = [original_name, model_status, manual_status]
      in open_append csv_file (header @ [data_row]))"

text \<open>A sequence of \<open>save_to_csv\<close> calls, stopping at the first exception.\<close>

fun save_all :: "(string \<times> string \<times> string) list \<Rightarrow> fs_entry \<Rightarrow> py_error + fs_entry" where
  "save_all [] csv_file = Inr csv_file"
| "save_all ((n, m, h) # records) csv_file =
     (case save_to_csv n m h csv_file of
        Inl e \<Rightarrow> Inl e
      | Inr csv_file' \<Rightarrow> save_all records csv_file')"











section \<open>Playback (\<open>cv2.VideoCapture\<close>, the decode loop, looping and rewinding)\<close>

text \<open>
  One clip: \<open>caps[i]\<close> together with \<open>video_done[i]\<close>.  The capture is an ideal frame
  cursor over the frames of the file: \<open>read\<close> returns the frame at the cursor and moves
  the cursor by one, or fails at the end of the stream and leaves the cursor where it is;
  \<open>set(CAP_PROP_POS_FRAMES, p)\<close> moves the cursor to \<open>p\<close> and
  \<open>get(CAP_PROP_POS_FRAMES)\<close> reads it.  A file that could not be opened has no frames.
\<close>

record clip =
  cap_frames :: "nat list"
  cap_pos :: nat
  video_done :: bool

datatype image = Resized nat | Blank

definition cap_read :: "clip \<Rightarrow> nat option \<times> clip" where
  "cap_read c =
     (if cap_pos c < length (cap_frames c)
      then (Some (cap_frames c ! cap_pos c), c\<lparr>cap_pos := cap_pos c + 1\<rparr>)
      else (None, c))"

definition cap_set_pos :: "nat \<Rightarrow> clip \<Rightarrow> clip" where
  "cap_set_pos p c = c\<lparr>cap_pos := p\<rparr>"

definition cap_get_pos :: "clip \<Rightarrow> nat" where
  "cap_get_pos c = cap_pos c"

text \<open>The body of the decode loop for one clip: the frame for the grid and the clip afterwards.\<close>

definition decode_clip :: "bool \<Rightarrow> clip \<Rightarrow> image \<times> clip" where
  "decode_clip paused c =
     (if \<not> video_done c \<and> \<not> paused then
        (case cap_read c of
           (Some frame, c') \<Rightarrow> (Resized frame, c')
         | (None, c') \<Rightarrow> (Blank, c'\<lparr>video_done := True\<rparr>))
      else if \<not> video_done c \<and> paused then
        (let current_pos = cap_get_pos c
         in case cap_read c of
              (Some frame, c') \<Rightarrow> (Resized frame, cap_set_pos current_pos c')
            | (None, c') \<Rightarrow> (Blank, c'\<lparr>video_done := True\<rparr>))
      else (Blank, c))"

text \<open>\<open>if all(video_done) and not paused\<close>: every clip that is done is set back to frame 0.\<close>

definition loop_if_all_done :: "bool \<Rightarrow> clip list \<Rightarrow> clip list" where
  "loop_if_all_done paused clips =
     (if list_all video_done clips \<and> \<not> paused
      then map (\<lambda>c. if video_done c then (cap_set_pos 0 c)\<lparr>video_done := False\<rparr> else c) clips
      else clips)"

text \<open>The playback part of one iteration of the main loop: the decode loop, then the loop check.\<close>

definition playback_pass :: "bool \<Rightarrow> clip list \<Rightarrow> image list \<times> clip list" where
  "playback_pass paused clips =
     (let decoded = map (decode_clip paused) clips
      in (map fst decoded, loop_if_all_done paused (map snd decoded)))"

definition rewind_all_videos :: "clip list \<Rightarrow> clip list" where
  "rewind_all_videos clips = map (\<lambda>c. (cap_set_pos 0 c)\<lparr>video_done := False\<rparr>) clips"

section \<open>The session: key dispatch and click handling of \<open>main\<close>\<close>

record video_info =
  info_file :: string
  info_label :: string
  info_original_name :: string
  info_model_status :: string

record pending =
  pending_index :: int
  pending_original_name :: string
  pending_model_status :: string

text \<open>
  The variables of \<open>main\<close> and the globals it shares with \<open>mouse_callback\<close>, with the
  log file at its fixed path \<open>video_classifications.csv\<close>.
\<close>

record session =
  clips :: "clip list"
  infos :: "video_info list"
  cols :: int
  rows :: int
  total :: int
  frame_width :: int
  frame_height :: int
  paused :: bool
  pending_classification :: "pending option"
  click_coords :: "(int \<times> int) option"
  csv_file :: fs_entry

datatype tick_result = Continue session | Break session | Raised py_error session

definition ord :: "char \<Rightarrow> int" where
  "ord c = of_char c"

text \<open>Python list indexing: a negative index counts from the end.\<close>

definition list_getitem :: "'a list \<Rightarrow> int \<Rightarrow> py_error + 'a" where
  "list_getitem xs i =
     (if 0 \<le> i \<and> i < int (length xs) then Inr (xs ! nat i)
      else if i < 0 \<and> - int (length xs) \<le> i then Inr (xs ! nat (int (length xs) + i))
      else Inl IndexError)"

text \<open>
  The \<open>if\<close>/\<open>elif\<close> chain on the key: quit, pause, rewind, and the three keys of the
  classification mode.
\<close>

definition classify :: "pending \<Rightarrow> string \<Rightarrow> session \<Rightarrow> tick_result" where
  "classify p manual_status s =
     (case save_to_csv (pending_original_name p) (pending_model_status p) manual_status
             (csv_file s) of
        Inl e \<Rightarrow> Raised e s
      | Inr csv_file' \<Rightarrow>
          Continue (s\<lparr>csv_file := csv_file', pending_classification := None\<rparr>))"

definition handle_key :: "int \<Rightarrow> session \<Rightarrow> tick_result" where
  "handle_key key s =
     (if key = ord (CHR ''q'') \<or> key = ord (CHR ''Q'') then Break s
      else if key = ord (CHR '' '') then Continue (s\<lparr>paused := \<not> paused s\<rparr>)
      else if key = ord (CHR ''r'') \<or> key = ord (CHR ''R'')
        then Continue (s\<lparr>clips := rewind_all_videos (clips s)\<rparr>)
      else
        (case pending_classification s of
           Some p \<Rightarrow>
             if key = ord (CHR ''t'') \<or> key = ord (CHR ''T'') then classify p ''FOUND'' s
             else if key = ord (CHR ''f'') \<or> key = ord (CHR ''F'') then classify p ''NOT_FOUND'' s
             else if key = 27 then Continue (s\<lparr>pending_classification := None\<rparr>)
             else Continue s
         | None \<Rightarrow> Continue s))"

text \<open>
  The click check at the end of the iteration.  The buffer \<open>click_coords\<close> is reset
  inside the \<open>if\<close>, that is, only when no classification is pending.
\<close>

definition handle_click :: "session \<Rightarrow> py_error + session" where
  "handle_click s =
     (case click_coords s of
        Some (x, y) \<Rightarrow>
          if pending_classification s = None then
            (case get_clicked_video_index x y (cols s) (rows s) (frame_width s)
                    (frame_height s) (total s) of
               Inl e \<Rightarrow> Inl e
             | Inr (Some clicked_index) \<Rightarrow>
                 if clicked_index < int (length (infos s)) then
                   (case list_getitem (infos s) clicked_index of
                      Inl e \<Rightarrow> Inl e
                    | Inr info \<Rightarrow>
                        Inr (s\<lparr>pending_classification :=
                                  Some \<lparr>pending_index = clicked_index,
                                        pending_original_name = info_original_name info,
                                        pending_model_status = info_model_status info\<rparr>,
                                click_coords := None\<rparr>))
                 else Inr (s\<lparr>click_coords := None\<rparr>)
             | Inr None \<Rightarrow> Inr (s\<lparr>click_coords := None\<rparr>))
          else Inr s
      | None \<Rightarrow> Inr s)"

text \<open>
  One iteration of the \<open>while True\<close> loop.  \<open>mouse_events\<close> are the pointer events
  (event, x, y) the window delivers to \<open>mouse_callback\<close> during \<open>cv2.waitKey(30)\<close>, in
  order, and \<open>raw_key\<close> is what \<open>waitKey\<close> returns (\<open>-1\<close> when no key was pressed);
  the key is \<open>raw_key & 0xFF\<close>.  Drawing the grid changes no state and is left out.
\<close>

definition tick :: "(int \<times> int \<times> int) list \<Rightarrow> int \<Rightarrow> session \<Rightarrow> tick_result" where
  "tick mouse_events raw_key s =
     (let s1 = s\<lparr>clips := snd (playback_pass (paused s) (clips s))\<rparr>;
          s2 = s1\<lparr>click_coords :=
                    foldl (\<lambda>cc (event, x, y). mouse_callback event x y cc)
                      (click_coords s1) mouse_events\<rparr>;
          key = raw_key mod 256
      in case handle_key key s2 of
           Continue s3 \<Rightarrow>
             (case handle_click s3 of
                Inl e \<Rightarrow> Raised e s3
              | Inr s4 \<Rightarrow> Continue s4)
         | Break s3 \<Rightarrow> Break s3
         | Raised e s3 \<Rightarrow> Raised e s3)"

text \<open>The loop over a finite sequence of iterations, each with its pointer events and key.\<close>

fun run :: "((int \<times> int \<times> int) list \<times> int) list \<Rightarrow> session \<Rightarrow> tick_result" where
  "run [] s = Continue s"
| "run ((mouse_events, raw_key) # inputs) s =
     (case tick mouse_events raw_key s of
        Continue s' \<Rightarrow> run inputs s'
      | Break s' \<Rightarrow> Break s'
      | Raised e s' \<Rightarrow> Raised e s')"

text \<open>The state in which an iteration or a run of the loop ends, however it ends.\<close>

fun state_of :: "tick_result \<Rightarrow> session" where
  "state_of (Continue s) = s"
| "state_of (Break s) = s"
| "state_of (Raised e s) = s"

section \<open>Startup (\<open>get_available_folders\<close>, \<open>select_folder\<close>, the head of \<open>main\<close>)\<close>

text \<open>
  What is at the base path: nothing, something that is not a directory, or a directory
  with its entries, each with the answer of \<open>os.path.isdir\<close>.
\<close>

datatype base_dir = BaseMissing | BaseNotDirectory | BaseDirectory "(string \<times> bool) list"

text \<open>\<open>os.path.join\<close> of two components.\<close>

definition path_join :: "string \<Rightarrow> string \<Rightarrow> string" where
  "path_join a b =
     (if b \<noteq> [] \<and> hd b = CHR ''/'' then b
      else if a = [] \<or> last a = CHR ''/'' then a @ b
      else a @ ''/'' @ b)"

text \<open>\<open>sorted(folders, reverse=True)\<close> is the ascending order reversed.\<close>

definition get_available_folders :: "string \<Rightarrow> base_dir \<Rightarrow> py_error + string list" where
  "get_available_folders base_path base =
     (case base of
        BaseMissing \<Rightarrow> Inl (FileNotFoundError (''Base path does not exist: '' @ base_path))
      | BaseNotDirectory \<Rightarrow> Inl NotADirectoryError
      | BaseDirectory entries \<Rightarrow>
          (let folders = map fst (filter snd entries)
           in if folders = [] then Inl (FileNotFoundError (''No folders found in '' @ base_path))
              else Inr (rev (sort folders))))"

text \<open>What the startup prints and the windows it creates, in order.\<close>

datatype effect =
    PrintFolders "string list"
  | PrintExiting
  | PrintSelected string
  | PrintEnterNumberBetween nat
  | PrintEnterValidNumber
  | PrintError string
  | PrintInstructions string
  | PrintNoVideoFilesFound
  | PrintFoundVideoFiles nat
  | OpenCaptures "string list"
  | PrintDisplayGrid int int
  | NamedWindow
  | SetMouseCallback

datatype 'a outcome = Returns 'a | Raises py_error | SystemExit

definition is_space :: "char \<Rightarrow> bool" where
  "is_space c =
     (c \<in> set [CHR '' '', CHR 0x09, CHR 0x0A, CHR 0x0B, CHR 0x0C, CHR 0x0D,
                CHR 0x1C, CHR 0x1D, CHR 0x1E, CHR 0x1F, CHR 0x85, CHR 0xA0])"

definition strip :: "string \<Rightarrow> string" where
  "strip s = rev (dropWhile is_space (rev (dropWhile is_space s)))"

text \<open>
  The \<open>while True\<close> loop of \<open>select_folder\<close> over the lines the operator types;
  \<open>input\<close> raises \<open>EOFError\<close> when they run out.  \<open>parse_int\<close> is Python's
  \<open>int\<close> on strings, \<open>None\<close> where it raises \<open>ValueError\<close>.
\<close>

fun select_loop ::
  "(string \<Rightarrow> int option) \<Rightarrow> string \<Rightarrow> string list \<Rightarrow> string list \<Rightarrow> effect list \<times> string outcome" where
  "select_loop parse_int base_path folders [] = ([], Raises EOFError)"
| "select_loop parse_int base_path folders (line # lines) =
     (let choice = strip line
      in if lower choice = ''q'' then ([PrintExiting], SystemExit)
         else
           (case parse_int choice of
              None \<Rightarrow>
                (case select_loop parse_int base_path folders lines of
                   (effects, r) \<Rightarrow> (PrintEnterValidNumber # effects, r))
            | Some choice_num \<Rightarrow>
                if 1 \<le> choice_num \<and> choice_num \<le> int (length folders) then
                  (let selected_folder = folders ! nat (choice_num - 1)
                   in ([PrintSelected selected_folder],
                       Returns (path_join base_path selected_folder)))
                else
                  (case select_loop parse_int base_path folders lines of
                     (effects, r) \<Rightarrow> (PrintEnterNumberBetween (length folders) # effects, r))))"

definition select_folder ::
  "(string \<Rightarrow> int option) \<Rightarrow> string \<Rightarrow> base_dir \<Rightarrow> string list \<Rightarrow> effect list \<times> string outcome" where
  "select_folder parse_int base_path base lines =
     (case get_available_folders base_path base of
        Inl e \<Rightarrow> ([], Raises e)
      | Inr folders \<Rightarrow>
          (case select_loop parse_int base_path folders lines of
             (effects, r) \<Rightarrow> (PrintFolders folders # effects, r)))"

text \<open>
  \<open>sorted(glob.glob(os.path.join(folder, "*.*")))\<close> filtered by extension.
  \<open>entries\<close> are the names in the folder, \<open>None\<close> when the folder is missing; the
  pattern matches the names with a dot that do not start with one.  Folder names are taken
  to contain no pattern characters.
\<close>

definition ends_with :: "string \<Rightarrow> string \<Rightarrow> bool" where
  "ends_with s suffix = (take (length suffix) (rev s) = rev suffix)"

definition has_video_extension :: "string \<Rightarrow> bool" where
  "has_video_extension f = list_ex (ends_with (lower f)) [''.mp4'', ''.avi'', ''.mov'', ''.mkv'']"

definition glob_any :: "string \<Rightarrow> string list option \<Rightarrow> string list" where
  "glob_any folder entries =
     (case entries of
        None \<Rightarrow> []
      | Some names \<Rightarrow>
          map (path_join folder)
            (filter (\<lambda>n. n \<noteq> [] \<and> hd n \<noteq> CHR ''.'' \<and> CHR ''.'' \<in> set n) names))"

definition find_video_files :: "string \<Rightarrow> string list option \<Rightarrow> string list" where
  "find_video_files folder entries = filter has_video_extension (sort (glob_any folder entries))"

text \<open>
  \<open>int(np.ceil(np.sqrt(total)))\<close>, taken as the exact ceiling of the square root: the
  number of \<open>c\<close> with \<open>c * c < total\<close>.
\<close>

definition ceil_sqrt :: "nat \<Rightarrow> nat" where
  "ceil_sqrt n = length (takeWhile (\<lambda>c. c * c < n) [0..<n])"

definition make_info :: "string \<Rightarrow> video_info" where
  "make_info f =
     (case extract_label_and_info f of
        (label, original_name, model_status) \<Rightarrow>
          \<lparr>info_file = f, info_label = label, info_original_name = original_name,
           info_model_status = model_status\<rparr>)"

text \<open>
  The state in which \<open>main\<close> enters its loop.  \<open>frames_of\<close> gives the frames of each
  file as \<open>cv2.VideoCapture\<close> decodes them, \<open>log_entry\<close> is what is at the path of the log.
\<close>

definition init_session :: "(string \<Rightarrow> nat list) \<Rightarrow> fs_entry \<Rightarrow> string list \<Rightarrow> session" where
  "init_session frames_of log_entry video_files =
     (let n = int (length video_files);
          c = int (ceil_sqrt (length video_files))
      in \<lparr>clips = map (\<lambda>f. \<lparr>cap_frames = frames_of f, cap_pos = 0, video_done = False\<rparr>) video_files,
          infos = map make_info video_files,
          cols = c,
          rows = (n + c - 1) div c,
          total = n,
          frame_width = 320,
          frame_height = 240,
          paused = False,
          pending_classification = None,
          click_coords = None,
          csv_file = log_entry\<rparr>)"

datatype startup = Aborted | Exited | Uncaught py_error | Started session

text \<open>
  \<open>main\<close> up to the \<open>try\<close> around its loop.  \<open>listing\<close> gives the entries of a
  folder.  The two \<open>return\<close> statements come before the \<open>try\<close>, so that
  \<open>print_summary\<close> in its \<open>finally\<close> does not run for them.
\<close>

definition main_startup ::
  "(string \<Rightarrow> int option) \<Rightarrow> string \<Rightarrow> base_dir \<Rightarrow> string list \<Rightarrow> (string \<Rightarrow> string list option)
     \<Rightarrow> (string \<Rightarrow> nat list) \<Rightarrow> fs_entry \<Rightarrow> effect list \<times> startup" where
  "main_startup parse_int base_path base lines listing frames_of log_entry =
     (case select_folder parse_int base_path base lines of
        (effects, Raises (FileNotFoundError msg)) \<Rightarrow> (effects @ [PrintError msg], Aborted)
      | (effects, Raises e) \<Rightarrow> (effects, Uncaught e)
      | (effects, SystemExit) \<Rightarrow> (effects, Exited)
      | (effects, Returns folder) \<Rightarrow>
          (let video_files = find_video_files folder (listing folder)
           in if video_files = []
              then (effects @ [PrintInstructions (basename folder), PrintNoVideoFilesFound], Aborted)
              else
                (let s = init_session frames_of log_entry video_files
                 in (effects @ [PrintInstructions (basename folder),
                                PrintFoundVideoFiles (length video_files),
                                OpenCaptures video_files,
                                PrintDisplayGrid (rows s) (cols s),
                                NamedWindow, SetMouseCallback],
                     Started s))))"

section \<open>Auxiliary notions for the statements\<close>


text \<open>A session of two clips of four frames each, as \<open>main\<close> sets it up, with no log yet.\<close>

definition example_session :: session where
  "example_session =
     init_session (\<lambda>f. [10, 11, 12, 13]) Absent
       [''/v/channel1_20250618T145831_found.mp4'', ''/v/channel2_20250618T150000_absent.mp4'']"

text \<open>The same two files, the first with a single frame.\<close>

definition short_clip_session :: session where
  "short_clip_session =
     init_session
       (\<lambda>f. if f = ''/v/channel1_20250618T145831_found.mp4'' then [10] else [20, 21, 22, 23])
       Absent
       [''/v/channel1_20250618T145831_found.mp4'', ''/v/channel2_20250618T150000_absent.mp4'']"

text \<open>
  An instance of \<open>parse_int\<close> for the examples: it agrees with Python's \<open>int\<close> on
  the strings of decimal digits and rejects every other string.
\<close>

definition parse_decimal :: "string \<Rightarrow> int option" where
  "parse_decimal s =
     (if s \<noteq> [] \<and> list_all is_digit s
      then Some (foldl (\<lambda>a c. 10 * a + (of_char c - 48)) 0 s)
      else None)"

text \<open>Whether the startup reached the loop.\<close>

fun started :: "startup \<Rightarrow> bool" where
  "started (Started s) = True"
| "started _ = False"

section \<open>Pointer mapping: properties\<close>

text \<open>
  Claim C2, as the specification states it, gives index 1 for a click at (330, 310) on a
  2 x 2 grid of three clips.  In the code the callback stores (330, 270), and
  \<open>270 div (240 + 30) = 1\<close> is row 1, so that the cell is number 3, a filler cell, and
  the result is none.
\<close>

theorem pointer_mapping_example_counterexample:
  "mouse_callback EVENT_LBUTTONDOWN 330 310 None = Some (330, 270)
   \<and> get_clicked_video_index 330 270 2 2 320 240 3 = Inr None
   \<and> get_clicked_video_index 330 270 2 2 320 240 3 \<noteq> Inr (Some 1)"
  by (simp add: mouse_callback_def EVENT_LBUTTONDOWN_def get_clicked_video_index_def)

text \<open>
  Claim C2, amended.  For every pointer event the callback subtracts the height of the
  status bar (40) from \<open>y\<close>; a negative result gives none; otherwise the column is
  \<open>px div cellWidth\<close> and the row \<open>(py - 40) div (cellHeight + 30)\<close>, and the result
  is none when the column or the row is outside the grid or the cell number is not below
  the number of clips, and the cell number otherwise.  On the 2 x 2 grid of three clips a
  click at (330, 310) gives none, a click at (330, 309) gives index 1, and a click at
  (330, 580) gives none.
\<close>

theorem pointer_mapping:
  assumes "cell_width \<noteq> 0" and "cell_height + 30 \<noteq> 0"
  shows "mouse_callback EVENT_LBUTTONDOWN px py buffered = Some (px, py - 40)
    \<and> get_clicked_video_index px (py - 40) columns grid_rows cell_width cell_height n_clips =
        Inr (if py - 40 < 0 then None
             else let column = px div cell_width;
                      row = (py - 40) div (cell_height + 30)
                  in if column \<ge> columns \<or> row \<ge> grid_rows \<or> row * columns + column \<ge> n_clips
                     then None
                     else Some (row * columns + column))
    \<and> get_clicked_video_index 330 (310 - 40) 2 2 320 240 3 = Inr None
    \<and> get_clicked_video_index 330 (309 - 40) 2 2 320 240 3 = Inr (Some 1)
    \<and> get_clicked_video_index 330 (580 - 40) 2 2 320 240 3 = Inr None"
proof -
  have cb: "mouse_callback EVENT_LBUTTONDOWN px py buffered = Some (px, py - 40)"
    by (simp add: mouse_callback_def)
  have gen: "get_clicked_video_index px (py - 40) columns grid_rows cell_width cell_height n_clips =
        Inr (if py - 40 < 0 then None
             else let column = px div cell_width;
                      row = (py - 40) div (cell_height + 30)
                  in if column \<ge> columns \<or> row \<ge> grid_rows \<or> row * columns + column \<ge> n_clips
                     then None
                     else Some (row * columns + column))"
    using assms by (simp add: get_clicked_video_index_def Let_def not_less)
  have ex: "get_clicked_video_index 330 (310 - 40) 2 2 320 240 3 = Inr None"
    "get_clicked_video_index 330 (309 - 40) 2 2 320 240 3 = Inr (Some 1)"
    "get_clicked_video_index 330 (580 - 40) 2 2 320 240 3 = Inr None"
    by (simp_all add: get_clicked_video_index_def)
  from cb gen ex show ?thesis by blast
qed

theorem pointer_mapping_witness:
  "(320::int) \<noteq> 0 \<and> (240::int) + 30 \<noteq> 0
   \<and> mouse_callback EVENT_LBUTTONDOWN 10 320 None = Some (10, 280)
   \<and> get_clicked_video_index 10 (320 - 40) 2 2 320 240 3 = Inr (Some 2)"
  using pointer_mapping [of 320 240 10 320 None 2 2 3] by simp

section \<open>The classification log: properties\<close>

lemma save_all_regular:
  "save_all records (RegularFile rows0) =
     Inr (RegularFile (rows0 @ map (\<lambda>(n, m, h). [n, m, h]) records))"
  by (induction records arbitrary: rows0) (auto simp: save_to_csv_def)

text \<open>
  Claim C6.  Starting from a destination that does not exist, any sequence of \<open>n \<ge> 1\<close>
  appends leaves a file with the header row once, at the top, followed by the \<open>n\<close>
  data rows in the order of the calls.
\<close>

theorem append_header_once:
  assumes "records \<noteq> []"
  shows "save_all records Absent =
           Inr (RegularFile (fieldnames # map (\<lambda>(n, m, h). [n, m, h]) records))"
proof (cases records)
  case Nil
  with assms show ?thesis by simp
next
  case (Cons r rs)
  obtain n m h where r: "r = (n, m, h)" by (cases r) auto
  show ?thesis
    by (simp add: Cons r save_to_csv_def save_all_regular)
qed

theorem append_header_once_witness:
  "[(''a'', ''FOUND'', ''FOUND''), (''b'', ''UNKNOWN'', ''NOT_FOUND'')] \<noteq> []
   \<and> save_all [(''a'', ''FOUND'', ''FOUND''), (''b'', ''UNKNOWN'', ''NOT_FOUND'')] Absent =
       Inr (RegularFile [[''video_name'', ''model_status'', ''manual_status''],
                         [''a'', ''FOUND'', ''FOUND''], [''b'', ''UNKNOWN'', ''NOT_FOUND'']])"
  using append_header_once [of "[(''a'', ''FOUND'', ''FOUND''), (''b'', ''UNKNOWN'', ''NOT_FOUND'')]"]
  by (simp add: fieldnames_def)

text \<open>
  Claim C10.  Whether the header is written depends on the existence of the file alone:
  for every content of an existing file, the empty one included, an append adds the data
  row and nothing else, so that a log that starts as an empty file never gets a header;
  only an append to a missing file writes the header.
\<close>

theorem append_to_existing_writes_no_header:
  "save_to_csv n m h (RegularFile old_rows) = Inr (RegularFile (old_rows @ [[n, m, h]]))
   \<and> save_to_csv n m h (RegularFile []) = Inr (RegularFile [[n, m, h]])
   \<and> save_all records (RegularFile []) = Inr (RegularFile (map (\<lambda>(n, m, h). [n, m, h]) records))
   \<and> save_to_csv n m h Absent = Inr (RegularFile [fieldnames, [n, m, h]])"
  using save_all_regular [of records "[]"] by (simp add: save_to_csv_def)


















section \<open>The classification controller: properties\<close>

lemma example_session_eq:
  "example_session =
     \<lparr>clips = [\<lparr>cap_frames = [10, 11, 12, 13], cap_pos = 0, video_done = False\<rparr>,
               \<lparr>cap_frames = [10, 11, 12, 13], cap_pos = 0, video_done = False\<rparr>],
      infos = [\<lparr>info_file = ''/v/channel1_20250618T145831_found.mp4'',
                 info_label = ''channel1_FOUND'',
                 info_original_name = ''channel1_20250618T145831'',
                 info_model_status = ''FOUND''\<rparr>,
               \<lparr>info_file = ''/v/channel2_20250618T150000_absent.mp4'',
                 info_label = ''channel2_ABSENT'',
                 info_original_name = ''channel2_20250618T150000'',
                 info_model_status = ''NOT_FOUND''\<rparr>],
      cols = 2, rows = 1, total = 2, frame_width = 320, frame_height = 240,
      paused = False, pending_classification = None, click_coords = None,
      csv_file = Absent\<rparr>"
  by (simp add: example_session_def init_session_def make_info_def extract_label_and_info_def
      basename_def re_match_def match_digits_def is_digit_def is_word_char_def upper_def
      upper_char_def ceil_sqrt_def upt_rec Let_def)



lemma ord_values:
  "ord (CHR ''q'') = 113" "ord (CHR ''Q'') = 81" "ord (CHR '' '') = 32"
  "ord (CHR ''r'') = 114" "ord (CHR ''R'') = 82" "ord (CHR ''t'') = 116"
  "ord (CHR ''T'') = 84" "ord (CHR ''f'') = 102" "ord (CHR ''F'') = 70"
  by (simp_all add: ord_def)















text \<open>
  Claim C4 says that the click buffer is emptied in every iteration and that a click made
  while a selection is pending is dropped.  The code checks the buffer only when no
  selection is pending, as its comment says, but it also empties the buffer only then.  In
  the session of two clips: a click on clip 0 selects it; a click on clip 1 made while that
  selection is pending stays in the buffer at the end of the iteration; and the iteration in
  which T confirms clip 0 writes its row and then takes the old click, so that it ends with
  clip 1 selected instead of idle.
\<close>

theorem buffered_click_survives_pending_selection:
  "run [([(EVENT_LBUTTONDOWN, 10, 50)], -1), ([(EVENT_LBUTTONDOWN, 330, 50)], -1)] example_session =
     Continue (example_session
       \<lparr>clips := [\<lparr>cap_frames = [10, 11, 12, 13], cap_pos = 2, video_done = False\<rparr>,
                  \<lparr>cap_frames = [10, 11, 12, 13], cap_pos = 2, video_done = False\<rparr>],
        pending_classification :=
          Some \<lparr>pending_index = 0, pending_original_name = ''channel1_20250618T145831'',
                pending_model_status = ''FOUND''\<rparr>,
        click_coords := Some (330, 10)\<rparr>)
   \<and> run [([(EVENT_LBUTTONDOWN, 10, 50)], -1), ([(EVENT_LBUTTONDOWN, 330, 50)], -1),
          ([], ord (CHR ''t''))] example_session =
     Continue (example_session
       \<lparr>clips := [\<lparr>cap_frames = [10, 11, 12, 13], cap_pos = 3, video_done = False\<rparr>,
                  \<lparr>cap_frames = [10, 11, 12, 13], cap_pos = 3, video_done = False\<rparr>],
        pending_classification :=
          Some \<lparr>pending_index = 1, pending_original_name = ''channel2_20250618T150000'',
                pending_model_status = ''NOT_FOUND''\<rparr>,
        click_coords := None,
        csv_file := RegularFile [[''video_name'', ''model_status'', ''manual_status''],
                                 [''channel1_20250618T145831'', ''FOUND'', ''FOUND'']]\<rparr>)"
  by (simp add: example_session_eq tick_def playback_pass_def decode_clip_def cap_read_def
      cap_set_pos_def cap_get_pos_def loop_if_all_done_def mouse_callback_def
      EVENT_LBUTTONDOWN_def handle_key_def handle_click_def get_clicked_video_index_def
      list_getitem_def classify_def save_to_csv_def fieldnames_def ord_def)

section \<open>Playback and the loop: properties\<close>

lemma handle_click_keeps:
  assumes "handle_click s = Inr s'"
  shows "clips s' = clips s \<and> paused s' = paused s"
proof (cases "click_coords s")
  case None
  with assms show ?thesis by (simp add: handle_click_def)
next
  case (Some xy)
  obtain x y where xy: "xy = (x, y)" by (cases xy) auto
  show ?thesis
  proof (cases "pending_classification s = None")
    case False
    with assms Some xy show ?thesis by (simp add: handle_click_def)
  next
    case True
    with assms Some xy show ?thesis
      by (auto simp: handle_click_def split: sum.splits option.splits if_splits)
  qed
qed

lemma classify_keeps:
  "clips (state_of (classify p m s)) = clips s \<and> paused (state_of (classify p m s)) = paused s"
  by (simp add: classify_def split: sum.splits)

lemma handle_key_clips:
  "clips (state_of (handle_key k s)) =
     (if k = 114 \<or> k = 82 then rewind_all_videos (clips s) else clips s)"
  by (simp add: handle_key_def ord_values classify_keeps split: option.splits)

lemma handle_key_paused:
  "paused (state_of (handle_key k s)) = (if k = 32 then \<not> paused s else paused s)"
  by (simp add: handle_key_def ord_values classify_keeps split: option.splits)

lemma tick_state_of:
  "clips (state_of (tick evs raw s)) =
     clips (state_of (handle_key (raw mod 256)
        (s\<lparr>clips := snd (playback_pass (paused s) (clips s)),
           click_coords := foldl (\<lambda>cc (event, x, y). mouse_callback event x y cc)
                             (click_coords s) evs\<rparr>)))
   \<and> paused (state_of (tick evs raw s)) =
     paused (state_of (handle_key (raw mod 256)
        (s\<lparr>clips := snd (playback_pass (paused s) (clips s)),
           click_coords := foldl (\<lambda>cc (event, x, y). mouse_callback event x y cc)
                             (click_coords s) evs\<rparr>)))"
proof -
  let ?s2 = "s\<lparr>clips := snd (playback_pass (paused s) (clips s)),
           click_coords := foldl (\<lambda>cc (event, x, y). mouse_callback event x y cc)
                             (click_coords s) evs\<rparr>"
  show ?thesis
  proof (cases "handle_key (raw mod 256) ?s2")
    case (Continue s3)
    show ?thesis
    proof (cases "handle_click s3")
      case (Inl e)
      with Continue show ?thesis by (simp add: tick_def Let_def)
    next
      case (Inr s4)
      with Continue handle_click_keeps [OF Inr] show ?thesis by (simp add: tick_def Let_def)
    qed
  next
    case (Break s3)
    then show ?thesis by (simp add: tick_def Let_def)
  next
    case (Raised e s3)
    then show ?thesis by (simp add: tick_def Let_def)
  qed
qed

lemma tick_clips:
  "clips (state_of (tick evs raw s)) =
     (if raw mod 256 = 114 \<or> raw mod 256 = 82
      then rewind_all_videos (snd (playback_pass (paused s) (clips s)))
      else snd (playback_pass (paused s) (clips s)))"
  unfolding conjunct1 [OF tick_state_of] handle_key_clips by simp

lemma tick_paused:
  "paused (state_of (tick evs raw s)) = (if raw mod 256 = 32 then \<not> paused s else paused s)"
  unfolding conjunct2 [OF tick_state_of] handle_key_paused by simp

lemma decode_clip_done: "video_done c \<Longrightarrow> decode_clip p c = (Blank, c)"
  by (simp add: decode_clip_def)

lemma decode_clip_paused:
  "decode_clip True c =
     (if video_done c then (Blank, c)
      else if cap_pos c < length (cap_frames c) then (Resized (cap_frames c ! cap_pos c), c)
      else (Blank, c\<lparr>video_done := True\<rparr>))"
  by (simp add: decode_clip_def cap_read_def cap_set_pos_def cap_get_pos_def)

lemma loop_if_all_done_paused: "loop_if_all_done True cs = cs"
  by (simp add: loop_if_all_done_def)

lemma loop_if_all_done_fires:
  "list_all video_done cs \<Longrightarrow>
     loop_if_all_done False cs = map (\<lambda>c. c\<lparr>cap_pos := 0, video_done := False\<rparr>) cs"
  by (induction cs) (auto simp: loop_if_all_done_def cap_set_pos_def list_all_iff)

lemma playback_pass_paused:
  "playback_pass True cs = (map (fst \<circ> decode_clip True) cs, map (snd \<circ> decode_clip True) cs)"
  by (simp add: playback_pass_def loop_if_all_done_paused)

lemma length_playback_pass: "length (snd (playback_pass p cs)) = length cs"
  by (simp add: playback_pass_def loop_if_all_done_def Let_def)

lemma paused_pass_keeps_done:
  assumes "i < length cs" and "video_done (cs ! i)"
  shows "snd (playback_pass True cs) ! i = cs ! i"
  using assms by (simp add: playback_pass_paused decode_clip_done)

lemma reset_after_decode:
  assumes "list_all video_done (map (snd \<circ> decode_clip False) cs)"
  shows "list_all (\<lambda>c. cap_pos c = 0 \<and> \<not> video_done c) (snd (playback_pass False cs))"
proof -
  have "snd (playback_pass False cs) =
          map (\<lambda>c. c\<lparr>cap_pos := 0, video_done := False\<rparr>) (map (snd \<circ> decode_clip False) cs)"
    using loop_if_all_done_fires [OF assms] by (simp add: playback_pass_def)
  then show ?thesis by (simp add: list_all_iff)
qed

lemma all_done_after_decode:
  "list_all video_done cs \<Longrightarrow> list_all video_done (map (snd \<circ> decode_clip p) cs)"
  by (induction cs) (simp_all add: decode_clip_done)

lemma rewind_all_reset:
  "list_all (\<lambda>c. cap_pos c = 0 \<and> \<not> video_done c) (rewind_all_videos cs)"
  by (simp add: rewind_all_videos_def cap_set_pos_def list_all_iff)

lemma tick_resets_when_all_done:
  assumes "\<not> paused s" and "list_all video_done (map (snd \<circ> decode_clip False) (clips s))"
  shows "list_all (\<lambda>c. cap_pos c = 0 \<and> \<not> video_done c) (clips (state_of (tick evs raw s)))"
  using assms reset_after_decode [OF assms(2)] by (simp add: tick_clips rewind_all_reset)

lemma tick_paused_keeps_done:
  assumes "paused s" and "raw mod 256 \<noteq> 114" and "raw mod 256 \<noteq> 82"
    and "i < length (clips s)" and "video_done (clips s ! i)"
  shows "clips (state_of (tick evs raw s)) ! i = clips s ! i"
  using assms by (simp add: tick_clips paused_pass_keeps_done)

lemma length_tick_clips: "length (clips (state_of (tick evs raw s))) = length (clips s)"
  by (simp add: tick_clips length_playback_pass rewind_all_videos_def)

lemma run_paused_keeps_done:
  assumes "list_all (\<lambda>(evs, raw). raw mod 256 \<noteq> 32 \<and> raw mod 256 \<noteq> 114 \<and> raw mod 256 \<noteq> 82) inputs"
    and "paused s" and "i < length (clips s)" and "video_done (clips s ! i)"
  shows "paused (state_of (run inputs s)) \<and> clips (state_of (run inputs s)) ! i = clips s ! i"
  using assms
proof (induction inputs arbitrary: s)
  case Nil
  then show ?case by simp
next
  case (Cons input inputs)
  obtain evs raw where input: "input = (evs, raw)" by (cases input) auto
  from Cons.prems(1) input
  have k: "raw mod 256 \<noteq> 32" "raw mod 256 \<noteq> 114" "raw mod 256 \<noteq> 82"
    and rest: "list_all (\<lambda>(evs, raw). raw mod 256 \<noteq> 32 \<and> raw mod 256 \<noteq> 114 \<and> raw mod 256 \<noteq> 82) inputs"
    by simp_all
  let ?s' = "state_of (tick evs raw s)"
  have p: "paused ?s'" using Cons.prems(2) k(1) by (simp add: tick_paused)
  have c: "clips ?s' ! i = clips s ! i"
    using tick_paused_keeps_done [OF Cons.prems(2) k(2) k(3) Cons.prems(3) Cons.prems(4)] .
  have l: "i < length (clips ?s')" using Cons.prems(3) by (simp add: length_tick_clips)
  show ?case
  proof (cases "tick evs raw s")
    case (Continue s')
    with p c l have "paused s'" "clips s' ! i = clips s ! i" "i < length (clips s')" by simp_all
    with Cons.IH [OF rest, of s'] Cons.prems(4) Continue input show ?thesis by simp
  next
    case (Break s')
    with p c input show ?thesis by simp
  next
    case (Raised e s')
    with p c input show ?thesis by simp
  qed
qed

lemma short_clip_session_eq:
  "short_clip_session =
     \<lparr>clips = [\<lparr>cap_frames = [10], cap_pos = 0, video_done = False\<rparr>,
               \<lparr>cap_frames = [20, 21, 22, 23], cap_pos = 0, video_done = False\<rparr>],
      infos = [\<lparr>info_file = ''/v/channel1_20250618T145831_found.mp4'',
                 info_label = ''channel1_FOUND'',
                 info_original_name = ''channel1_20250618T145831'',
                 info_model_status = ''FOUND''\<rparr>,
               \<lparr>info_file = ''/v/channel2_20250618T150000_absent.mp4'',
                 info_label = ''channel2_ABSENT'',
                 info_original_name = ''channel2_20250618T150000'',
                 info_model_status = ''NOT_FOUND''\<rparr>],
      cols = 2, rows = 1, total = 2, frame_width = 320, frame_height = 240,
      paused = False, pending_classification = None, click_coords = None,
      csv_file = Absent\<rparr>"
  by (simp add: short_clip_session_def init_session_def make_info_def extract_label_and_info_def
      basename_def re_match_def match_digits_def is_digit_def is_word_char_def upper_def
      upper_char_def ceil_sqrt_def upt_rec Let_def)

lemmas eval_tick = tick_def playback_pass_def decode_clip_def cap_read_def
      cap_set_pos_def cap_get_pos_def loop_if_all_done_def mouse_callback_def
      EVENT_LBUTTONDOWN_def handle_key_def handle_click_def get_clicked_video_index_def
      list_getitem_def classify_def save_to_csv_def fieldnames_def ord_def rewind_all_videos_def

text \<open>
  Claim C5, as stated, lets exhausted clips stay exhausted for as long as the pause holds.
  The rewind command is handled whether the loop is paused or not: in the session with a
  one-frame clip, two iterations leave the loop paused with that clip exhausted, and the key
  R in the next iteration clears the flag while the pause still holds.
\<close>

theorem rewind_while_paused_counterexample:
  "run [([], -1), ([], ord (CHR '' ''))] short_clip_session =
     Continue (short_clip_session
       \<lparr>clips := [\<lparr>cap_frames = [10], cap_pos = 1, video_done = True\<rparr>,
                  \<lparr>cap_frames = [20, 21, 22, 23], cap_pos = 2, video_done = False\<rparr>],
        paused := True\<rparr>)
   \<and> run [([], -1), ([], ord (CHR '' '')), ([], ord (CHR ''r''))] short_clip_session =
     Continue (short_clip_session
       \<lparr>clips := [\<lparr>cap_frames = [10], cap_pos = 0, video_done = False\<rparr>,
                  \<lparr>cap_frames = [20, 21, 22, 23], cap_pos = 0, video_done = False\<rparr>],
        paused := True\<rparr>)"
  by (simp add: short_clip_session_eq eval_tick)

text \<open>
  Claim C5, amended.  When every clip is exhausted and the loop is not paused, at the start
  of an iteration or after its decode loop, the loop check of that iteration sets every
  cursor to the start and clears every flag, whatever the key of the iteration is.  While
  paused the loop check changes nothing, and an exhausted clip stays as it is through every
  iteration whose key is not the rewind command, hence through any run of iterations without
  the pause and rewind keys.  The rewind command sets every cursor to the start and clears
  every flag, paused or not.
\<close>

theorem loop_reset_and_pause:
  "(\<not> paused s \<and> list_all video_done (clips s)
      \<longrightarrow> list_all (\<lambda>c. cap_pos c = 0 \<and> \<not> video_done c) (clips (state_of (tick evs raw s))))
   \<and> (\<not> paused s \<and> list_all video_done (map (snd \<circ> decode_clip False) (clips s))
      \<longrightarrow> list_all (\<lambda>c. cap_pos c = 0 \<and> \<not> video_done c) (clips (state_of (tick evs raw s))))
   \<and> loop_if_all_done True cs = cs
   \<and> (paused s \<and> raw mod 256 \<noteq> ord (CHR ''r'') \<and> raw mod 256 \<noteq> ord (CHR ''R'')
        \<and> i < length (clips s) \<and> video_done (clips s ! i)
      \<longrightarrow> clips (state_of (tick evs raw s)) ! i = clips s ! i)
   \<and> (paused s
        \<and> list_all (\<lambda>(evs, raw). raw mod 256 \<noteq> ord (CHR '' '') \<and> raw mod 256 \<noteq> ord (CHR ''r'')
                                  \<and> raw mod 256 \<noteq> ord (CHR ''R'')) inputs
        \<and> i < length (clips s) \<and> video_done (clips s ! i)
      \<longrightarrow> paused (state_of (run inputs s)) \<and> clips (state_of (run inputs s)) ! i = clips s ! i)
   \<and> (raw mod 256 = ord (CHR ''r'') \<or> raw mod 256 = ord (CHR ''R'')
      \<longrightarrow> list_all (\<lambda>c. cap_pos c = 0 \<and> \<not> video_done c) (clips (state_of (tick evs raw s))))"
proof (intro conjI impI)
  assume a: "\<not> paused s \<and> list_all video_done (clips s)"
  then have "list_all video_done (map (snd \<circ> decode_clip False) (clips s))"
    using all_done_after_decode by blast
  with a show "list_all (\<lambda>c. cap_pos c = 0 \<and> \<not> video_done c) (clips (state_of (tick evs raw s)))"
    using tick_resets_when_all_done by blast
next
  assume "\<not> paused s \<and> list_all video_done (map (snd \<circ> decode_clip False) (clips s))"
  then show "list_all (\<lambda>c. cap_pos c = 0 \<and> \<not> video_done c) (clips (state_of (tick evs raw s)))"
    using tick_resets_when_all_done by blast
next
  show "loop_if_all_done True cs = cs" by (rule loop_if_all_done_paused)
next
  assume "paused s \<and> raw mod 256 \<noteq> ord (CHR ''r'') \<and> raw mod 256 \<noteq> ord (CHR ''R'')
        \<and> i < length (clips s) \<and> video_done (clips s ! i)"
  then show "clips (state_of (tick evs raw s)) ! i = clips s ! i"
    using tick_paused_keeps_done [of s raw i evs] by (simp add: ord_values)
next
  assume "paused s
        \<and> list_all (\<lambda>(evs, raw). raw mod 256 \<noteq> ord (CHR '' '') \<and> raw mod 256 \<noteq> ord (CHR ''r'')
                                  \<and> raw mod 256 \<noteq> ord (CHR ''R'')) inputs
        \<and> i < length (clips s) \<and> video_done (clips s ! i)"
  then have a: "paused s
        \<and> list_all (\<lambda>(evs, raw). raw mod 256 \<noteq> 32 \<and> raw mod 256 \<noteq> 114 \<and> raw mod 256 \<noteq> 82) inputs
        \<and> i < length (clips s) \<and> video_done (clips s ! i)"
    by (simp add: ord_values)
  then show "paused (state_of (run inputs s))"
    using run_paused_keeps_done [of inputs s i] by blast
  from a show "clips (state_of (run inputs s)) ! i = clips s ! i"
    using run_paused_keeps_done [of inputs s i] by blast
next
  assume "raw mod 256 = ord (CHR ''r'') \<or> raw mod 256 = ord (CHR ''R'')"
  then have "raw mod 256 = 114 \<or> raw mod 256 = 82" by (simp add: ord_values)
  then show "list_all (\<lambda>c. cap_pos c = 0 \<and> \<not> video_done c) (clips (state_of (tick evs raw s)))"
    using rewind_all_reset by (auto simp: tick_clips)
qed

theorem loop_reset_and_pause_witness:
  "list_all (\<lambda>c. cap_pos c = 0 \<and> \<not> video_done c)
     (clips (state_of (tick [] (-1)
        (short_clip_session
           \<lparr>clips := [\<lparr>cap_frames = [10], cap_pos = 1, video_done = True\<rparr>,
                      \<lparr>cap_frames = [20, 21, 22, 23], cap_pos = 4, video_done = True\<rparr>]\<rparr>))))
   \<and> clips (state_of (tick [] (-1)
        (short_clip_session
           \<lparr>clips := [\<lparr>cap_frames = [10], cap_pos = 1, video_done = True\<rparr>,
                      \<lparr>cap_frames = [20, 21, 22, 23], cap_pos = 2, video_done = False\<rparr>],
            paused := True\<rparr>))) ! 0
       = \<lparr>cap_frames = [10], cap_pos = 1, video_done = True\<rparr>
   \<and> clips (state_of (run [([], -1), ([], ord (CHR ''t''))]
        (short_clip_session
           \<lparr>clips := [\<lparr>cap_frames = [10], cap_pos = 1, video_done = True\<rparr>,
                      \<lparr>cap_frames = [20, 21, 22, 23], cap_pos = 2, video_done = False\<rparr>],
            paused := True\<rparr>))) ! 0
       = \<lparr>cap_frames = [10], cap_pos = 1, video_done = True\<rparr>"
  using loop_reset_and_pause
          [where s = "short_clip_session
           \<lparr>clips := [\<lparr>cap_frames = [10], cap_pos = 1, video_done = True\<rparr>,
                      \<lparr>cap_frames = [20, 21, 22, 23], cap_pos = 4, video_done = True\<rparr>]\<rparr>"
             and evs = "[]" and raw = "-1"]
        loop_reset_and_pause
          [where s = "short_clip_session
           \<lparr>clips := [\<lparr>cap_frames = [10], cap_pos = 1, video_done = True\<rparr>,
                      \<lparr>cap_frames = [20, 21, 22, 23], cap_pos = 2, video_done = False\<rparr>],
            paused := True\<rparr>"
             and evs = "[]" and raw = "-1" and i = 0
             and inputs = "[([], -1), ([], ord (CHR ''t''))]"]
  by (simp add: short_clip_session_eq ord_values)

text \<open>
  Claim C8, as stated, has every flag after a paused iteration equal to its value before.
  The paused branch of the decode loop marks a clip exhausted when its probe read fails:
  the one-frame clip is at the end of its stream after the first iteration, which also
  pauses the loop, and the paused iteration that follows sets its flag.
\<close>

theorem paused_probe_marks_exhausted_counterexample:
  "run [([], ord (CHR '' ''))] short_clip_session =
     Continue (short_clip_session
       \<lparr>clips := [\<lparr>cap_frames = [10], cap_pos = 1, video_done = False\<rparr>,
                  \<lparr>cap_frames = [20, 21, 22, 23], cap_pos = 1, video_done = False\<rparr>],
        paused := True\<rparr>)
   \<and> run [([], ord (CHR '' '')), ([], -1)] short_clip_session =
     Continue (short_clip_session
       \<lparr>clips := [\<lparr>cap_frames = [10], cap_pos = 1, video_done = True\<rparr>,
                  \<lparr>cap_frames = [20, 21, 22, 23], cap_pos = 1, video_done = False\<rparr>],
        paused := True\<rparr>)
   \<and> playback_pass True [\<lparr>cap_frames = [10], cap_pos = 1, video_done = False\<rparr>,
                          \<lparr>cap_frames = [20, 21, 22, 23], cap_pos = 1, video_done = False\<rparr>] =
       ([Blank, Resized 21],
        [\<lparr>cap_frames = [10], cap_pos = 1, video_done = True\<rparr>,
         \<lparr>cap_frames = [20, 21, 22, 23], cap_pos = 1, video_done = False\<rparr>])"
  by (simp add: short_clip_session_eq eval_tick)

text \<open>
  Claim C8, amended.  The playback pass of a paused iteration returns, for every clip that
  is not exhausted and has a frame at its cursor, that frame, which a probe read decodes,
  and a blank frame for every other clip.  It leaves every cursor and every capture as they
  were.  A clip is exhausted afterwards exactly when it was exhausted before or its cursor
  is at the end of the stream, where the probe read fails.  The clips at the end of a paused
  iteration are those the pass leaves, unless the key is the rewind command.
\<close>

theorem paused_tick:
  "playback_pass True cs = (map (fst \<circ> decode_clip True) cs, map (snd \<circ> decode_clip True) cs)
   \<and> fst (decode_clip True c) =
       (if \<not> video_done c \<and> cap_pos c < length (cap_frames c)
        then Resized (cap_frames c ! cap_pos c) else Blank)
   \<and> cap_pos (snd (decode_clip True c)) = cap_pos c
   \<and> cap_frames (snd (decode_clip True c)) = cap_frames c
   \<and> video_done (snd (decode_clip True c)) = (video_done c \<or> length (cap_frames c) \<le> cap_pos c)
   \<and> (paused s \<and> raw mod 256 \<noteq> ord (CHR ''r'') \<and> raw mod 256 \<noteq> ord (CHR ''R'')
      \<longrightarrow> clips (state_of (tick evs raw s)) = map (snd \<circ> decode_clip True) (clips s))"
proof (intro conjI impI)
  show "playback_pass True cs = (map (fst \<circ> decode_clip True) cs, map (snd \<circ> decode_clip True) cs)"
    by (rule playback_pass_paused)
next
  assume "paused s \<and> raw mod 256 \<noteq> ord (CHR ''r'') \<and> raw mod 256 \<noteq> ord (CHR ''R'')"
  then show "clips (state_of (tick evs raw s)) = map (snd \<circ> decode_clip True) (clips s)"
    by (simp add: tick_clips ord_values playback_pass_paused)
qed (simp_all add: decode_clip_paused not_less)

theorem paused_tick_witness:
  "clips (state_of (tick [] (-1)
        (short_clip_session
           \<lparr>clips := [\<lparr>cap_frames = [10], cap_pos = 1, video_done = False\<rparr>,
                      \<lparr>cap_frames = [20, 21, 22, 23], cap_pos = 1, video_done = False\<rparr>],
            paused := True\<rparr>)))
     = [\<lparr>cap_frames = [10], cap_pos = 1, video_done = True\<rparr>,
        \<lparr>cap_frames = [20, 21, 22, 23], cap_pos = 1, video_done = False\<rparr>]"
  using paused_tick
          [where s = "short_clip_session
           \<lparr>clips := [\<lparr>cap_frames = [10], cap_pos = 1, video_done = False\<rparr>,
                      \<lparr>cap_frames = [20, 21, 22, 23], cap_pos = 1, video_done = False\<rparr>],
            paused := True\<rparr>"
             and evs = "[]" and raw = "-1"]
  by (simp add: short_clip_session_eq ord_values decode_clip_paused)

section \<open>File names: properties\<close>

lemma upper_lower_char:
  "upper_char c = CHR ''F'' \<longleftrightarrow> lower_char c = CHR ''f''"
  "upper_char c = CHR ''O'' \<longleftrightarrow> lower_char c = CHR ''o''"
  "upper_char c = CHR ''U'' \<longleftrightarrow> lower_char c = CHR ''u''"
  "upper_char c = CHR ''N'' \<longleftrightarrow> lower_char c = CHR ''n''"
  "upper_char c = CHR ''D'' \<longleftrightarrow> lower_char c = CHR ''d''"
  by (auto simp: upper_char_def lower_char_def split: if_splits)

lemma upper_found_iff: "upper w = ''FOUND'' \<longleftrightarrow> ci_equal w ''found''"
proof -
  have "lower ''found'' = ''found''"
    by (simp add: lower_def lower_char_def)
  then show ?thesis
    by (auto simp: ci_equal_def upper_def lower_def map_eq_Cons_conv upper_lower_char)
qed

lemma not_digit_sep: "\<not> is_digit (CHR ''_'')" "\<not> is_digit (CHR ''T'')"
  by (simp_all add: is_digit_def)

lemma match_digits_run:
  assumes "ds \<noteq> []" and "list_all is_digit ds" and "\<not> is_digit c"
  shows "match_digits (ds @ c # r) = Some (ds, c # r)"
  using assms by (simp add: match_digits_def list_all_iff)

lemma word_run:
  assumes "list_all is_word_char w" and "rest = [] \<or> \<not> is_word_char (hd rest)"
  shows "takeWhile is_word_char (w @ rest) = w"
proof (cases rest)
  case Nil
  with assms(1) show ?thesis by (simp add: list_all_iff)
next
  case (Cons c r)
  with assms show ?thesis by (simp add: list_all_iff)
qed

lemma re_match_prefix:
  assumes "parts_ok ds d1 d2 w" and "rest = [] \<or> \<not> is_word_char (hd rest)"
  shows "re_match (''channel'' @ ds @ ''_'' @ d1 @ ''T'' @ d2 @ ''_'' @ w @ rest) =
           Some (''channel'' @ ds, d1 @ ''T'' @ d2, w)"
proof -
  from assms(1) have ds: "ds \<noteq> []" "list_all is_digit ds"
    and d1: "d1 \<noteq> []" "list_all is_digit d1"
    and d2: "d2 \<noteq> []" "list_all is_digit d2"
    and w: "w \<noteq> []" "list_all is_word_char w"
    by (simp_all add: parts_ok_def)
  have m0: "match_digits (ds @ CHR ''_'' # d1 @ CHR ''T'' # d2 @ CHR ''_'' # w @ rest) =
              Some (ds, CHR ''_'' # d1 @ CHR ''T'' # d2 @ CHR ''_'' # w @ rest)"
    by (rule match_digits_run [OF ds not_digit_sep(1)])
  have m1: "match_digits (d1 @ CHR ''T'' # d2 @ CHR ''_'' # w @ rest) =
              Some (d1, CHR ''T'' # d2 @ CHR ''_'' # w @ rest)"
    by (rule match_digits_run [OF d1 not_digit_sep(2)])
  have m2: "match_digits (d2 @ CHR ''_'' # w @ rest) = Some (d2, CHR ''_'' # w @ rest)"
    by (rule match_digits_run [OF d2 not_digit_sep(1)])
  have m3: "takeWhile is_word_char (w @ rest) = w"
    by (rule word_run [OF w(2) assms(2)])
  show ?thesis
    using w(1) by (simp add: re_match_def m0 m1 m2 m3)
qed

lemma strip_prefix_Some: "strip_prefix p s = Some r \<Longrightarrow> s = p @ r"
  by (induction p s rule: strip_prefix.induct) (auto split: if_splits)

lemma match_digits_Some:
  "match_digits s = Some (ds, r) \<Longrightarrow> s = ds @ r \<and> ds \<noteq> [] \<and> list_all is_digit ds"
  by (auto simp: match_digits_def Let_def list_all_iff split: if_splits dest: set_takeWhileD)

lemma expect_Some: "expect c s = Some r \<Longrightarrow> s = c # r"
  by (cases s) (auto split: if_splits)

lemma re_match_Some:
  assumes "re_match base = Some (channel, timestamp, group3)"
  shows "\<exists>ds d1 d2 rest. parts_ok ds d1 d2 group3
           \<and> base = ''channel'' @ ds @ ''_'' @ d1 @ ''T'' @ d2 @ ''_'' @ group3 @ rest"
proof -
  from assms obtain r0 ds r1 r2 d1 r3 r4 d2 r5 r6 where
    s0: "strip_prefix ''channel'' base = Some r0" and
    s1: "match_digits r0 = Some (ds, r1)" and
    s2: "expect (CHR ''_'') r1 = Some r2" and
    s3: "match_digits r2 = Some (d1, r3)" and
    s4: "expect (CHR ''T'') r3 = Some r4" and
    s5: "match_digits r4 = Some (d2, r5)" and
    s6: "expect (CHR ''_'') r5 = Some r6" and
    s7: "takeWhile is_word_char r6 \<noteq> []" "group3 = takeWhile is_word_char r6"
    by (auto simp: re_match_def Let_def split: option.splits prod.splits if_splits)
  have w: "list_all is_word_char group3"
    by (auto simp: s7(2) list_all_iff dest: set_takeWhileD)
  have r6: "r6 = group3 @ dropWhile is_word_char r6"
    by (simp add: s7(2))
  have "base = ''channel'' @ ds @ ''_'' @ d1 @ ''T'' @ d2 @ ''_'' @ group3 @ dropWhile is_word_char r6"
    using strip_prefix_Some [OF s0] match_digits_Some [OF s1] expect_Some [OF s2]
      match_digits_Some [OF s3] expect_Some [OF s4] match_digits_Some [OF s5]
      expect_Some [OF s6] r6
    by simp
  moreover have "parts_ok ds d1 d2 group3"
    using match_digits_Some [OF s1] match_digits_Some [OF s3] match_digits_Some [OF s5] s7 w
    by (simp add: parts_ok_def)
  ultimately show ?thesis by blast
qed

lemma re_match_None:
  assumes "\<not> matches_prefix base"
  shows "re_match base = None"
proof (cases "re_match base")
  case None
  then show ?thesis by simp
next
  case (Some g)
  obtain c t w where "g = (c, t, w)" by (cases g) auto
  with Some have "re_match base = Some (c, t, w)" by simp
  from re_match_Some [OF this] have "matches_prefix base"
    unfolding matches_prefix_def by blast
  with assms show ?thesis by simp
qed

text \<open>
  Claim C3, as stated, sends every file name that does not have the shape
  \<open><channel><digits>_<timestamp>_<statusWord>.<ext>\<close> to the fallback.  The pattern
  is matched at the start of the name only, and nothing is required after the status word:
  in the ASCII name \<open>channel502_20250618T145831_found-copy.mkv\<close> the word run
  \<open>found\<close> is not followed by a dot, yet the name is parsed, with status FOUND.  (Read
  with \<open>found-copy\<close> as the status word, the name would have to give NOT_FOUND.)
\<close>

theorem status_suffix_counterexample:
  "list_all is_ascii ''channel502_20250618T145831_found-copy.mkv''
   \<and> \<not> matches_grammar ''channel502_20250618T145831_found-copy.mkv''
   \<and> extract_label_and_info ''channel502_20250618T145831_found-copy.mkv'' =
       (''channel502_FOUND'', ''channel502_20250618T145831'', ''FOUND'')
   \<and> \<not> ci_equal ''found-copy'' ''found''"
proof (intro conjI)
  show "list_all is_ascii ''channel502_20250618T145831_found-copy.mkv''"
    by (simp add: is_ascii_def)
next
  show "\<not> matches_grammar ''channel502_20250618T145831_found-copy.mkv''"
  proof
    assume "matches_grammar ''channel502_20250618T145831_found-copy.mkv''"
    then obtain ds d1 d2 w ext where ok: "parts_ok ds d1 d2 w"
      and eq: "''channel502_20250618T145831_found-copy.mkv'' =
                 ''channel'' @ ds @ ''_'' @ d1 @ ''T'' @ d2 @ ''_'' @ w @ ''.'' @ ext"
      unfolding matches_grammar_def by blast
    have "\<not> is_word_char (hd (''.'' @ ext))" by (simp add: is_word_char_def)
    then have "re_match (''channel'' @ ds @ ''_'' @ d1 @ ''T'' @ d2 @ ''_'' @ w @ ''.'' @ ext) =
                 Some (''channel'' @ ds, d1 @ ''T'' @ d2, w)"
      using re_match_prefix [OF ok, of "''.'' @ ext"] by blast
    moreover have "re_match ''channel502_20250618T145831_found-copy.mkv'' =
                     Some (''channel502'', ''20250618T145831'', ''found'')"
      by (simp add: re_match_def match_digits_def is_digit_def is_word_char_def)
    ultimately have parts: "''channel'' @ ds = ''channel502''" "d1 @ ''T'' @ d2 = ''20250618T145831''"
      "w = ''found''"
      using eq by simp_all
    from parts(1) have ds: "ds = ''502''" by simp
    have "(d1 @ ''T'' @ d2) @ ''_'' @ w @ ''.'' @ ext = ''20250618T145831'' @ ''_'' @ ''found'' @ ''.'' @ ext"
      by (simp only: parts)
    then have tail: "d1 @ ''T'' @ d2 @ ''_'' @ w @ ''.'' @ ext = ''20250618T145831_found.'' @ ext"
      by simp
    from eq show False
      unfolding ds tail by simp
  qed
next
  show "extract_label_and_info ''channel502_20250618T145831_found-copy.mkv'' =
       (''channel502_FOUND'', ''channel502_20250618T145831'', ''FOUND'')"
    by (simp add: extract_label_and_info_def basename_def re_match_def match_digits_def
        is_digit_def is_word_char_def upper_def upper_char_def Let_def)
next
  show "\<not> ci_equal ''found-copy'' ''found''"
    by (simp add: ci_equal_def lower_def)
qed

text \<open>
  Claim C3, amended, for file names made of ASCII characters.  For every such file name
  that begins with \<open>channel\<close>, digits, an underscore, a timestamp (digits, \<open>T\<close>,
  digits), an underscore and a status word, the status word being the longest run of
  letters, digits and underscores at that place, whatever follows it (the dot and extension
  of the grammar, or anything else), the parser returns the label
  \<open>channel<digits>_<STATUS>\<close> with the status in upper case, the original name
  \<open>channel<digits>_<timestamp>\<close>, and FOUND if the status word equals \<open>found\<close> up
  to case, NOT_FOUND otherwise.  For every such file name that does not begin so it returns
  the file name twice and UNKNOWN.  The function never raises.  File name means the last
  component of the path.  Nothing is stated for names with characters outside ASCII, where
  Python's digit and word classes and its upper-casing are wider than the model's.
\<close>

theorem extract_label_and_info_prefix:
  "(list_all is_ascii (basename path)
      \<and> parts_ok ds d1 d2 w \<and> (rest = [] \<or> \<not> is_word_char (hd rest))
      \<and> basename path = ''channel'' @ ds @ ''_'' @ d1 @ ''T'' @ d2 @ ''_'' @ w @ rest
    \<longrightarrow> extract_label_and_info path =
          (''channel'' @ ds @ ''_'' @ upper w,
           ''channel'' @ ds @ ''_'' @ d1 @ ''T'' @ d2,
           if ci_equal w ''found'' then ''FOUND'' else ''NOT_FOUND''))
   \<and> (list_all is_ascii (basename path)
      \<and> parts_ok ds d1 d2 w
      \<and> basename path = ''channel'' @ ds @ ''_'' @ d1 @ ''T'' @ d2 @ ''_'' @ w @ ''.'' @ ext
    \<longrightarrow> extract_label_and_info path =
          (''channel'' @ ds @ ''_'' @ upper w,
           ''channel'' @ ds @ ''_'' @ d1 @ ''T'' @ d2,
           if ci_equal w ''found'' then ''FOUND'' else ''NOT_FOUND''))
   \<and> (list_all is_ascii (basename path) \<and> \<not> matches_prefix (basename path)
    \<longrightarrow> extract_label_and_info path = (basename path, basename path, ''UNKNOWN''))
   \<and> extract_label_and_info ''channel502_20250618T145831_found.mkv'' =
       (''channel502_FOUND'', ''channel502_20250618T145831'', ''FOUND'')"
proof -
  have main: "extract_label_and_info path =
          (''channel'' @ ds @ ''_'' @ upper w,
           ''channel'' @ ds @ ''_'' @ d1 @ ''T'' @ d2,
           if ci_equal w ''found'' then ''FOUND'' else ''NOT_FOUND'')"
    if ok: "parts_ok ds d1 d2 w" and r: "rest = [] \<or> \<not> is_word_char (hd rest)"
      and b: "basename path = ''channel'' @ ds @ ''_'' @ d1 @ ''T'' @ d2 @ ''_'' @ w @ rest"
    for rest
    unfolding extract_label_and_info_def Let_def b re_match_prefix [OF ok r]
    by (simp add: upper_found_iff)
  have dot: "\<not> is_word_char (hd (''.'' @ ext))" by (simp add: is_word_char_def)
  have fallback: "extract_label_and_info path = (basename path, basename path, ''UNKNOWN'')"
    if "\<not> matches_prefix (basename path)"
    using re_match_None [OF that] by (simp add: extract_label_and_info_def Let_def)
  have ex: "extract_label_and_info ''channel502_20250618T145831_found.mkv'' =
       (''channel502_FOUND'', ''channel502_20250618T145831'', ''FOUND'')"
    by (simp add: extract_label_and_info_def basename_def re_match_def match_digits_def
        is_digit_def is_word_char_def upper_def upper_char_def Let_def)
  show ?thesis
    using main [of rest] main [of "''.'' @ ext"] dot fallback ex by blast
qed

theorem extract_label_and_info_prefix_witness:
  "extract_label_and_info ''/clips/channel7_20250101T000000_Found (1).mp4'' =
     (''channel7_FOUND'', ''channel7_20250101T000000'', ''FOUND'')
   \<and> extract_label_and_info ''/clips/holiday.mp4'' = (''holiday.mp4'', ''holiday.mp4'', ''UNKNOWN'')"
proof -
  have ok: "parts_ok ''7'' ''20250101'' ''000000'' ''Found''"
    by (simp add: parts_ok_def is_digit_def is_word_char_def)
  have r: "'' (1).mp4'' = [] \<or> \<not> is_word_char (hd '' (1).mp4'')"
    by (simp add: is_word_char_def)
  have b: "basename ''/clips/channel7_20250101T000000_Found (1).mp4'' =
             ''channel'' @ ''7'' @ ''_'' @ ''20250101'' @ ''T'' @ ''000000'' @ ''_'' @ ''Found'' @ '' (1).mp4''"
    by (simp add: basename_def)
  have a: "list_all is_ascii (basename ''/clips/channel7_20250101T000000_Found (1).mp4'')"
    by (simp add: basename_def is_ascii_def)
  have u: "upper ''Found'' = ''FOUND''" by (simp add: upper_def upper_char_def)
  have c: "ci_equal ''Found'' ''found''" by (simp add: ci_equal_def lower_def lower_char_def)
  have first: "extract_label_and_info ''/clips/channel7_20250101T000000_Found (1).mp4'' =
     (''channel7_FOUND'', ''channel7_20250101T000000'', ''FOUND'')"
    using extract_label_and_info_prefix
            [where ds = "''7''" and ?d1.0 = "''20250101''" and ?d2.0 = "''000000''" and w = "''Found''"
               and rest = "'' (1).mp4''"
               and path = "''/clips/channel7_20250101T000000_Found (1).mp4''"]
          a ok r b u c
    by simp
  have b2: "basename ''/clips/holiday.mp4'' = ''holiday.mp4''" by (simp add: basename_def)
  have a2: "list_all is_ascii ''holiday.mp4''" by (simp add: is_ascii_def)
  have "\<not> matches_prefix ''holiday.mp4''"
    by (simp add: matches_prefix_def)
  then have second: "extract_label_and_info ''/clips/holiday.mp4'' =
      (''holiday.mp4'', ''holiday.mp4'', ''UNKNOWN'')"
    using extract_label_and_info_prefix [where path = "''/clips/holiday.mp4''"] b2 a2 by simp
  from first second show ?thesis by blast
qed

section \<open>Startup: properties\<close>

lemma select_loop_no_window:
  "NamedWindow \<notin> set (fst (select_loop parse_int base_path folders lines))"
proof (induction lines)
  case Nil
  show ?case by simp
next
  case (Cons line lines)
  obtain effects r where rest: "select_loop parse_int base_path folders lines = (effects, r)"
    by (cases "select_loop parse_int base_path folders lines") auto
  with Cons have "NamedWindow \<notin> set effects" by simp
  with rest show ?case
    by (simp add: Let_def split: option.splits)
qed

lemma select_folder_no_window:
  "NamedWindow \<notin> set (fst (select_folder parse_int base_path base lines))"
proof (cases "get_available_folders base_path base")
  case (Inl e)
  then show ?thesis by (simp add: select_folder_def)
next
  case (Inr folders)
  obtain effects r where rest: "select_loop parse_int base_path folders lines = (effects, r)"
    by (cases "select_loop parse_int base_path folders lines") auto
  with select_loop_no_window [of parse_int base_path folders lines]
  have "NamedWindow \<notin> set effects" by simp
  with Inr rest show ?thesis by (simp add: select_folder_def)
qed

lemma main_startup_no_window:
  assumes "main_startup parse_int base_path base lines listing frames_of log_entry = (effects, r)"
    and "\<not> started r"
  shows "NamedWindow \<notin> set effects"
proof -
  obtain es out where sf: "select_folder parse_int base_path base lines = (es, out)"
    by (cases "select_folder parse_int base_path base lines") auto
  with select_folder_no_window [of parse_int base_path base lines]
  have es: "NamedWindow \<notin> set es" by simp
  show ?thesis
  proof (cases out)
    case (Returns folder)
    with assms sf es show ?thesis
      by (auto simp: main_startup_def Let_def split: if_splits)
  next
    case (Raises e)
    with assms sf es show ?thesis
      by (cases e) (auto simp: main_startup_def)
  next
    case SystemExit
    with assms sf es show ?thesis
      by (auto simp: main_startup_def)
  qed
qed

lemma find_video_files_none: "find_video_files folder None = []"
  by (simp add: find_video_files_def glob_any_def)

lemma find_video_files_no_video:
  assumes "list_all (\<lambda>n. \<not> has_video_extension (path_join folder n)) names"
  shows "find_video_files folder (Some names) = []"
proof -
  have "\<forall>f \<in> set (glob_any folder (Some names)). \<not> has_video_extension f"
    using assms by (auto simp: glob_any_def list_all_iff)
  then show ?thesis
    by (simp add: find_video_files_def filter_empty_conv)
qed

lemma main_startup_base_missing:
  "main_startup parse_int base_path BaseMissing lines listing frames_of log_entry =
     ([PrintError (''Base path does not exist: '' @ base_path)], Aborted)"
  by (simp add: main_startup_def select_folder_def get_available_folders_def)

lemma main_startup_no_folders:
  assumes "filter snd entries = []"
  shows "main_startup parse_int base_path (BaseDirectory entries) lines listing frames_of log_entry =
     ([PrintError (''No folders found in '' @ base_path)], Aborted)"
  using assms by (simp add: main_startup_def select_folder_def get_available_folders_def)

lemma main_startup_no_videos:
  assumes "select_folder parse_int base_path base lines = (effects, Returns folder)"
    and "find_video_files folder (listing folder) = []"
  shows "main_startup parse_int base_path base lines listing frames_of log_entry =
     (effects @ [PrintInstructions (basename folder), PrintNoVideoFilesFound], Aborted)"
  using assms by (simp add: main_startup_def)

lemma main_startup_started:
  assumes "main_startup parse_int base_path base lines listing frames_of log_entry = (effects, Started s)"
  shows "csv_file s = log_entry"
proof -
  obtain es out where sf: "select_folder parse_int base_path base lines = (es, out)"
    by (cases "select_folder parse_int base_path base lines") auto
  show ?thesis
  proof (cases out)
    case (Returns folder)
    with assms sf show ?thesis
      by (auto simp: main_startup_def Let_def init_session_def split: if_splits)
  next
    case (Raises e)
    with assms sf show ?thesis
      by (cases e) (auto simp: main_startup_def)
  next
    case SystemExit
    with assms sf show ?thesis
      by (auto simp: main_startup_def)
  qed
qed

lemma main_startup_aborted_message:
  assumes "main_startup parse_int base_path base lines listing frames_of log_entry = (effects, Aborted)"
  shows "(\<exists>msg. last effects = PrintError msg) \<or> last effects = PrintNoVideoFilesFound"
proof -
  obtain es out where sf: "select_folder parse_int base_path base lines = (es, out)"
    by (cases "select_folder parse_int base_path base lines") auto
  show ?thesis
  proof (cases out)
    case (Returns folder)
    with assms sf show ?thesis
      by (auto simp: main_startup_def Let_def split: if_splits)
  next
    case (Raises e)
    with assms sf show ?thesis
      by (cases e) (auto simp: main_startup_def)
  next
    case SystemExit
    with assms sf show ?thesis
      by (auto simp: main_startup_def)
  qed
qed

text \<open>
  Claim C9, as stated, has the loading of the clips fail with a not-found error when the
  chosen folder is missing or holds no file with an accepted extension.  No exception is
  raised on that path: with one folder to choose from and only \<open>notes.txt\<close> in it, or
  with the folder gone, the folder is selected, the list of video files is empty, and
  \<open>main\<close> prints that no video files were found and returns.
\<close>

theorem no_video_files_counterexample:
  "select_folder parse_decimal ''/home/op/Downloads/managerVids''
     (BaseDirectory [(''2025-06-18'', True)]) [''1''] =
     ([PrintFolders [''2025-06-18''], PrintSelected ''2025-06-18''],
      Returns ''/home/op/Downloads/managerVids/2025-06-18'')
   \<and> find_video_files ''/home/op/Downloads/managerVids/2025-06-18'' (Some [''notes.txt'']) = []
   \<and> main_startup parse_decimal ''/home/op/Downloads/managerVids''
       (BaseDirectory [(''2025-06-18'', True)]) [''1''] (\<lambda>folder. Some [''notes.txt''])
       (\<lambda>f. []) Absent =
     ([PrintFolders [''2025-06-18''], PrintSelected ''2025-06-18'',
       PrintInstructions ''2025-06-18'', PrintNoVideoFilesFound], Aborted)
   \<and> main_startup parse_decimal ''/home/op/Downloads/managerVids''
       (BaseDirectory [(''2025-06-18'', True)]) [''1''] (\<lambda>folder. None)
       (\<lambda>f. []) Absent =
     ([PrintFolders [''2025-06-18''], PrintSelected ''2025-06-18'',
       PrintInstructions ''2025-06-18'', PrintNoVideoFilesFound], Aborted)"
  by (simp add: main_startup_def select_folder_def get_available_folders_def parse_decimal_def
      is_digit_def strip_def is_space_def lower_def lower_char_def path_join_def basename_def
      find_video_files_def glob_any_def has_video_extension_def ends_with_def Let_def)


text \<open>
  Claim C9, amended.  A missing base path and a base path without folders each raise
  \<open>FileNotFoundError\<close> in \<open>get_available_folders\<close>; \<open>main\<close> catches it, prints
  the message and returns.  When the chosen folder is missing or has no file with an
  accepted video extension, nothing is raised: \<open>main\<close> prints that no video files were
  found and returns.  Every abort ends with one of these messages, no startup that does not
  reach the loop creates the window, and a startup that reaches the loop hands the log over
  untouched.
\<close>

theorem startup_failures:
  "get_available_folders base_path BaseMissing =
     Inl (FileNotFoundError (''Base path does not exist: '' @ base_path))
   \<and> (filter snd entries = []
      \<longrightarrow> get_available_folders base_path (BaseDirectory entries) =
            Inl (FileNotFoundError (''No folders found in '' @ base_path)))
   \<and> main_startup parse_int base_path BaseMissing lines listing frames_of log_entry =
       ([PrintError (''Base path does not exist: '' @ base_path)], Aborted)
   \<and> (filter snd entries = []
      \<longrightarrow> main_startup parse_int base_path (BaseDirectory entries) lines listing frames_of log_entry =
            ([PrintError (''No folders found in '' @ base_path)], Aborted))
   \<and> find_video_files folder None = []
   \<and> (list_all (\<lambda>n. \<not> has_video_extension (path_join folder n)) names
      \<longrightarrow> find_video_files folder (Some names) = [])
   \<and> (select_folder parse_int base_path base lines = (effects, Returns folder)
        \<and> find_video_files folder (listing folder) = []
      \<longrightarrow> main_startup parse_int base_path base lines listing frames_of log_entry =
            (effects @ [PrintInstructions (basename folder), PrintNoVideoFilesFound], Aborted))
   \<and> (main_startup parse_int base_path base lines listing frames_of log_entry = (printed, Aborted)
      \<longrightarrow> (\<exists>msg. last printed = PrintError msg) \<or> last printed = PrintNoVideoFilesFound)
   \<and> (main_startup parse_int base_path base lines listing frames_of log_entry = (printed, r)
        \<and> \<not> started r
      \<longrightarrow> NamedWindow \<notin> set printed)
   \<and> (main_startup parse_int base_path base lines listing frames_of log_entry = (printed, Started s)
      \<longrightarrow> csv_file s = log_entry)"
proof (intro conjI impI)
  show "get_available_folders base_path BaseMissing =
     Inl (FileNotFoundError (''Base path does not exist: '' @ base_path))"
    by (simp add: get_available_folders_def)
next
  assume "filter snd entries = []"
  then show "get_available_folders base_path (BaseDirectory entries) =
            Inl (FileNotFoundError (''No folders found in '' @ base_path))"
    by (simp add: get_available_folders_def)
next
  show "main_startup parse_int base_path BaseMissing lines listing frames_of log_entry =
       ([PrintError (''Base path does not exist: '' @ base_path)], Aborted)"
    by (rule main_startup_base_missing)
next
  assume "filter snd entries = []"
  then show "main_startup parse_int base_path (BaseDirectory entries) lines listing frames_of log_entry =
            ([PrintError (''No folders found in '' @ base_path)], Aborted)"
    by (rule main_startup_no_folders)
next
  show "find_video_files folder None = []" by (rule find_video_files_none)
next
  assume "list_all (\<lambda>n. \<not> has_video_extension (path_join folder n)) names"
  then show "find_video_files folder (Some names) = []" by (rule find_video_files_no_video)
next
  assume "select_folder parse_int base_path base lines = (effects, Returns folder)
        \<and> find_video_files folder (listing folder) = []"
  then show "main_startup parse_int base_path base lines listing frames_of log_entry =
            (effects @ [PrintInstructions (basename folder), PrintNoVideoFilesFound], Aborted)"
    using main_startup_no_videos by blast
next
  assume "main_startup parse_int base_path base lines listing frames_of log_entry = (printed, Aborted)"
  then show "(\<exists>msg. last printed = PrintError msg) \<or> last printed = PrintNoVideoFilesFound"
    by (rule main_startup_aborted_message)
next
  assume "main_startup parse_int base_path base lines listing frames_of log_entry = (printed, r)
        \<and> \<not> started r"
  then show "NamedWindow \<notin> set printed"
    using main_startup_no_window by blast
next
  assume "main_startup parse_int base_path base lines listing frames_of log_entry = (printed, Started s)"
  then show "csv_file s = log_entry" by (rule main_startup_started)
qed

theorem startup_failures_witness:
  "main_startup parse_decimal ''/base'' (BaseDirectory [(''readme.txt'', False)]) []
       (\<lambda>folder. None) (\<lambda>f. []) Absent =
     ([PrintError ''No folders found in /base''], Aborted)
   \<and> find_video_files ''/base/day1'' (Some [''notes.txt'', ''clip.mp3'']) = []
   \<and> main_startup parse_decimal ''/base'' (BaseDirectory [(''day1'', True)]) [''x'', ''1'']
       (\<lambda>folder. Some [''notes.txt'', ''clip.mp3'']) (\<lambda>f. []) Absent =
     ([PrintFolders [''day1''], PrintEnterValidNumber, PrintSelected ''day1'',
       PrintInstructions ''day1'', PrintNoVideoFilesFound], Aborted)
   \<and> NamedWindow \<notin> set [PrintFolders [''day1''], PrintEnterValidNumber, PrintSelected ''day1'',
       PrintInstructions ''day1'', PrintNoVideoFilesFound]"
proof -
  have sf: "select_folder parse_decimal ''/base'' (BaseDirectory [(''day1'', True)]) [''x'', ''1''] =
              ([PrintFolders [''day1''], PrintEnterValidNumber, PrintSelected ''day1''],
               Returns ''/base/day1'')"
    by (simp add: select_folder_def get_available_folders_def parse_decimal_def is_digit_def
        strip_def is_space_def lower_def lower_char_def path_join_def Let_def)
  have nv: "list_all (\<lambda>n. \<not> has_video_extension (path_join ''/base/day1'' n))
              [''notes.txt'', ''clip.mp3'']"
    by (simp add: has_video_extension_def ends_with_def path_join_def lower_def lower_char_def)
  have nf: "filter snd [(''readme.txt'', False)] = []" by simp
  show ?thesis
    using startup_failures
            [where parse_int = parse_decimal and base_path = "''/base''"
               and entries = "[(''readme.txt'', False)]" and lines = "[]"
               and listing = "\<lambda>folder. None" and frames_of = "\<lambda>f. []" and log_entry = Absent
               and folder = "''/base/day1''" and names = "[''notes.txt'', ''clip.mp3'']"]
          startup_failures
            [where parse_int = parse_decimal and base_path = "''/base''"
               and base = "BaseDirectory [(''day1'', True)]" and lines = "[''x'', ''1'']"
               and listing = "\<lambda>folder. Some [''notes.txt'', ''clip.mp3'']"
               and frames_of = "\<lambda>f. []" and log_entry = Absent
               and folder = "''/base/day1''" and names = "[''notes.txt'', ''clip.mp3'']"
               and effects = "[PrintFolders [''day1''], PrintEnterValidNumber, PrintSelected ''day1'']"
               and printed = "[PrintFolders [''day1''], PrintEnterValidNumber, PrintSelected ''day1'',
                                PrintInstructions ''day1'', PrintNoVideoFilesFound]"
               and r = Aborted]
          sf nv nf
    by (simp add: basename_def)
qed

end
